theory Spec2Isabelle
  imports Complex_Main
begin

section \<open>Strings and numbers as the handler uses them\<close>

text \<open>
  The handler of \<^verbatim>\<open>pages/api/tools/youtube-summary/index.ts\<close> works on JavaScript
  strings and numbers. A string is modelled as a HOL \<^typ>\<open>string\<close>, each \<^typ>\<open>char\<close>
  read as a code unit below 256, so the white space that \<^verbatim>\<open>String.prototype.trim\<close>
  removes is the part of ECMAScript's WhiteSpace and LineTerminator below 256. An
  offset is a whole number of milliseconds, of a size at which a double holds it and
  its quotient by 1000 as exactly as the arithmetic here, and at which a number prints
  in plain decimal digits.
\<close>

definition isWhiteSpace :: "char \<Rightarrow> bool" where
  "isWhiteSpace c =
     (c = CHR 0x09 \<or> c = CHR 0x0A \<or> c = CHR 0x0B \<or> c = CHR 0x0C \<or> c = CHR 0x0D
      \<or> c = CHR 0x20 \<or> c = CHR 0xA0)"

definition trim :: "string \<Rightarrow> string" where
  "trim s = rev (dropWhile isWhiteSpace (rev (dropWhile isWhiteSpace s)))"

definition startsWith :: "string \<Rightarrow> string \<Rightarrow> bool" where
  "startsWith s p = (take (length p) s = p)"

text \<open>\<^verbatim>\<open>s.replace(/^- /, '')\<close>: the pattern is anchored, so at most the first two
  characters go.\<close>

definition replace_marker :: "string \<Rightarrow> string" where
  "replace_marker s = (if startsWith s ''- '' then drop 2 s else s)"

text \<open>\<^verbatim>\<open>xs.join(sep)\<close> on an array of strings.\<close>

fun join :: "string \<Rightarrow> string list \<Rightarrow> string" where
  "join sep [] = []"
| "join sep [x] = x"
| "join sep (x # y # ys) = x @ sep @ join sep (y # ys)"

text \<open>A whole number in a template literal: decimal digits, a minus sign below zero.\<close>

fun show_nat :: "nat \<Rightarrow> string" where
  "show_nat n =
     (if n < 10 then [''0123456789'' ! n]
      else show_nat (n div 10) @ [''0123456789'' ! (n mod 10)])"

declare show_nat.simps [simp del]

definition show_int :: "int \<Rightarrow> string" where
  "show_int i = (if i < 0 then ''-'' @ show_nat (nat (- i)) else show_nat (nat i))"

text \<open>\<^verbatim>\<open>Math.ceil(offset / 1000)\<close>.\<close>

definition offset_seconds :: "int \<Rightarrow> int" where
  "offset_seconds off = \<lceil>(of_int off / 1000 :: rat)\<rceil>"

section \<open>Transcript lines and grouped segments\<close>

record transcript =
  "text" :: string
  offset :: int

text \<open>
  A grouped segment is what the \<^verbatim>\<open>reduce\<close> of \<^verbatim>\<open>groupBySentences\<close> returns. Its
  accumulator starts as the empty object \<^verbatim>\<open>{}\<close>, whose fields are undefined, so
  both fields are optional here: \<^term>\<open>None\<close> is \<^verbatim>\<open>undefined\<close>.
\<close>

record segment =
  seg_text :: "string option"
  seg_offset :: "int option"

definition empty_object :: segment where
  "empty_object = \<lparr>seg_text = None, seg_offset = None\<rparr>"

text \<open>A possibly undefined string inside a template literal.\<close>

fun template_str :: "string option \<Rightarrow> string" where
  "template_str None = ''undefined''"
| "template_str (Some s) = s"

text \<open>The body of \<^verbatim>\<open>t.forEach\<close> (lines 85 to 93), on the pair of
  \<^verbatim>\<open>groupedTranscripts\<close> and \<^verbatim>\<open>currentGroup\<close>.\<close>

fun forEach_body ::
  "transcript list list \<times> transcript list \<Rightarrow> transcript \<Rightarrow>
   transcript list list \<times> transcript list" where
  "forEach_body (grouped, currentGroup) transcript =
     (let (grouped', currentGroup') =
        (if startsWith (trim (text transcript)) ''-'' then
           (if length currentGroup > 0 then (grouped @ [currentGroup], [])
            else (grouped, currentGroup))
         else (grouped, currentGroup))
      in (grouped', currentGroup' @ [transcript]))"

text \<open>The loop, then the flush of the last group (lines 95 to 98).\<close>

definition groupedTranscripts :: "transcript list \<Rightarrow> transcript list list" where
  "groupedTranscripts t =
     (let (grouped, currentGroup) = foldl forEach_body ([], []) t
      in if length currentGroup > 0 then grouped @ [currentGroup] else grouped)"

text \<open>\<^verbatim>\<open>each.reduce((acc, item, index) => ..., {})\<close> (lines 101 to 111).\<close>

definition reduce_callback :: "segment \<Rightarrow> transcript \<Rightarrow> nat \<Rightarrow> segment" where
  "reduce_callback acc item index =
     (if index = 0 then \<lparr>seg_text = Some (text item), seg_offset = Some (offset item)\<rparr>
      else acc\<lparr>seg_text := Some (template_str (seg_text acc) @ '' '' @ text item)\<rparr>)"

fun reduce_from ::
  "('b \<Rightarrow> 'a \<Rightarrow> nat \<Rightarrow> 'b) \<Rightarrow> 'b \<Rightarrow> nat \<Rightarrow> 'a list \<Rightarrow> 'b" where
  "reduce_from f acc index [] = acc"
| "reduce_from f acc index (item # items) = reduce_from f (f acc item index) (Suc index) items"

definition reduce :: "('b \<Rightarrow> 'a \<Rightarrow> nat \<Rightarrow> 'b) \<Rightarrow> 'b \<Rightarrow> 'a list \<Rightarrow> 'b" where
  "reduce f init xs = reduce_from f init 0 xs"

definition groupBySentences :: "transcript list \<Rightarrow> segment list" where
  "groupBySentences t = map (reduce reduce_callback empty_object) (groupedTranscripts t)"

section \<open>Text assembly\<close>

text \<open>Lines 121 to 127: the marker is stripped from the merged text, the offset is
  rendered in seconds, and the segments are joined with line feeds. An undefined offset
  would give \<^verbatim>\<open>NaN\<close>.\<close>

definition format_offset :: "int option \<Rightarrow> string" where
  "format_offset off =
     (case off of None \<Rightarrow> ''NaN'' | Some n \<Rightarrow> show_int (offset_seconds n)) @ ''s''"

definition format_segment :: "segment \<Rightarrow> string" where
  "format_segment each =
     ''['' @ format_offset (seg_offset each) @ ''] ''
       @ template_str (map_option replace_marker (seg_text each))"

definition assemble_text :: "transcript list \<Rightarrow> string" where
  "assemble_text transcripts = join [CHR 0x0A] (map format_segment (groupBySentences transcripts))"

section \<open>The store of summary records\<close>

text \<open>
  The table behind \<^verbatim>\<open>prisma.lLMTaskOutput\<close> is a list of rows with the columns the
  handler writes (\<^verbatim>\<open>id\<close> is \<^term>\<open>row_id\<close> here); other columns of the table are not
  modelled. Values the handler only passes on (the video snippet, the parsed summary,
  the usage) are opaque and stand as strings. \<^term>\<open>other_task_type\<close> stands for the
  rest of the enumeration \<^verbatim>\<open>LLMTaskOutputType\<close>.
\<close>

type_synonym json = string

datatype LLMTaskOutputType = youtube_summary | other_task_type

record task_output =
  metadata :: json
  en :: json

record LLMTaskOutput =
  row_id :: string
  externalId :: string
  "type" :: LLMTaskOutputType
  "output" :: task_output
  usage :: "json option"

text \<open>
  What a request can fail with: the handler's own
  \<^verbatim>\<open>Error('The url is not a valid youtube video.')\<close>, the store's refusal of a write
  that breaks a uniqueness constraint, and whatever an imported library throws.
\<close>

datatype error = InvalidVideoUrl | UniqueConstraintFailed | Thrown string

text \<open>\<^verbatim>\<open>findUnique({ where: { unique_external_id: { type, externalId } } })\<close>.\<close>

definition findUnique ::
  "LLMTaskOutput list \<Rightarrow> LLMTaskOutputType \<Rightarrow> string \<Rightarrow> LLMTaskOutput option" where
  "findUnique rows ty ext = find (\<lambda>r. type r = ty \<and> externalId r = ext) rows"

text \<open>
  \<^verbatim>\<open>upsert({ where: { id }, create, update })\<close>: the row with that id takes the values
  of \<^term>\<open>update\<close> (the handler's payload sets every column modelled here), and without
  such a row \<^term>\<open>create\<close> is inserted. A write that would give two rows one id, or one
  pair of type and external id, is refused and changes nothing.
\<close>

definition violates_unique :: "LLMTaskOutput list \<Rightarrow> LLMTaskOutput \<Rightarrow> bool" where
  "violates_unique rows r =
     list_ex (\<lambda>x. row_id x = row_id r \<or> (type x = type r \<and> externalId x = externalId r)) rows"

definition upsert ::
  "LLMTaskOutput list \<Rightarrow> string \<Rightarrow> LLMTaskOutput \<Rightarrow> LLMTaskOutput \<Rightarrow>
   error + (LLMTaskOutput \<times> LLMTaskOutput list)" where
  "upsert rows i create update =
     (case find (\<lambda>r. row_id r = i) rows of
        Some old \<Rightarrow>
          if violates_unique (filter (\<lambda>r. row_id r \<noteq> i) rows) update
          then Inl UniqueConstraintFailed
          else Inr (update, map (\<lambda>r. if row_id r = i then update else r) rows)
      | None \<Rightarrow>
          if violates_unique rows create then Inl UniqueConstraintFailed
          else Inr (create, rows @ [create]))"


section \<open>Requests, external services and the world\<close>

text \<open>
  Of a request the handler reads the body, the \<^verbatim>\<open>refresh\<close> query parameter and the
  session's roles (the session may be absent); \<^term>\<open>client\<close> stands for what the
  rate limiting middleware identifies the caller by.
\<close>

record request =
  body :: json
  query_refresh :: "string option"
  session_roles :: "string list option"
  client :: string

text \<open>What \<^verbatim>\<open>model.call\<close> resolves to, as far as the handler reads it:
  \<^verbatim>\<open>result?.completion?.choices?.[0]?.message?.tool_calls?.[0]?.function?.arguments\<close> and
  \<^verbatim>\<open>result?.usage\<close>.\<close>

record completion =
  arguments :: "string option"
  completion_usage :: "json option"

text \<open>
  The libraries the handler imports are parameters of the model. Each call that can
  reject returns a sum, \<^term>\<open>Inl\<close> the exception. \<^term>\<open>maxTokens\<close> and \<^term>\<open>model_name\<close>
  are the two fields of \<^verbatim>\<open>ModelConfig[AgentModelName.gpt_4_turbo]\<close>; the rate limiter
  works on a state of its own, of type \<^typ>\<open>'l\<close>; \<^term>\<open>cuid\<close> is indexed by the number of
  identifiers minted so far.
\<close>

record 'l services =
  YoutubeSummarySchema_parse :: "json \<Rightarrow> error + string"
  extractVideoId :: "string \<Rightarrow> string option"
  getVideoSnippetById :: "string option \<Rightarrow> error + json"
  transcribeVideo :: "string \<Rightarrow> error + transcript list"
  maxTokens :: nat
  model_name :: string
  splitTextByToken :: "string \<Rightarrow> rat \<Rightarrow> error + string list"
  rateLimit :: "nat \<Rightarrow> nat \<Rightarrow> request \<Rightarrow> 'l \<Rightarrow> error option \<times> 'l"
  model_call :: "string \<Rightarrow> string \<Rightarrow> error + completion"
  zodParseJSON :: "string option \<Rightarrow> error + json"
  cuid :: "nat \<Rightarrow> string"

text \<open>The calls a request issues to the services and to the store, in order.\<close>

datatype call =
    GetVideoSnippetById "string option"
  | FindUnique string
  | TranscribeVideo string
  | SplitTextByToken string rat
  | RateLimit nat nat
  | ModelCall string string
  | Upsert LLMTaskOutput

record 'l world =
  store :: "LLMTaskOutput list"
  limiter :: 'l
  minted :: nat
  trace :: "call list"

definition log :: "call \<Rightarrow> 'l world \<Rightarrow> 'l world" where
  "log c w = w\<lparr>trace := trace w @ [c]\<rparr>"

section \<open>createYoutubeSummary\<close>

text \<open>Lines 59 to 61.\<close>

definition refresh :: "request \<Rightarrow> bool" where
  "refresh req =
     (query_refresh req = Some ''true'' \<and>
      (case session_roles req of None \<Rightarrow> False | Some roles \<Rightarrow> ''SUPERADMIN'' \<in> set roles))"

text \<open>\<^verbatim>\<open>found?.id || cuid()\<close> (line 173): an absent record and an empty id both mint.\<close>

definition choose_id ::
  "'l services \<Rightarrow> LLMTaskOutput option \<Rightarrow> 'l world \<Rightarrow> string \<times> 'l world" where
  "choose_id sv found w =
     (case found of
        Some f \<Rightarrow>
          if row_id f \<noteq> [] then (row_id f, w)
          else (cuid sv (minted w), w\<lparr>minted := Suc (minted w)\<rparr>)
      | None \<Rightarrow> (cuid sv (minted w), w\<lparr>minted := Suc (minted w)\<rparr>))"

text \<open>The \<^verbatim>\<open>else\<close> branch, lines 79 to 198.\<close>

definition summarize_and_upsert ::
  "'l services \<Rightarrow> request \<Rightarrow> string \<Rightarrow> string \<Rightarrow> json \<Rightarrow> LLMTaskOutput option \<Rightarrow>
   'l world \<Rightarrow> (error + LLMTaskOutput) \<times> 'l world" where
  "summarize_and_upsert sv req url videoId videoSnippet found w =
     (let w1 = log (TranscribeVideo url) w in
      case transcribeVideo sv url of
        Inl e \<Rightarrow> (Inl e, w1)
      | Inr transcripts \<Rightarrow>
         (let text = assemble_text transcripts;
              chunkSize = of_nat (maxTokens sv) * 7 / 10;
              w2 = log (SplitTextByToken text chunkSize) w1
          in case splitTextByToken sv text chunkSize of
            Inl e \<Rightarrow> (Inl e, w2)
          | Inr chunks \<Rightarrow>
             (let chunkedText = (case chunks of [] \<Rightarrow> None | c # _ \<Rightarrow> Some c) in
              case rateLimit sv 60 2 req (limiter w2) of
                (verdict, limiter') \<Rightarrow>
                 (let w3 = log (RateLimit 60 2) (w2\<lparr>limiter := limiter'\<rparr>) in
                  case verdict of
                    Some e \<Rightarrow> (Inl e, w3)
                  | None \<Rightarrow>
                     (let content = ''Youtube video transcript: '' @ template_str chunkedText;
                          w4 = log (ModelCall (model_name sv) content) w3
                      in case model_call sv (model_name sv) content of
                        Inl e \<Rightarrow> (Inl e, w4)
                      | Inr result \<Rightarrow>
                         (case zodParseJSON sv (arguments result) of
                            Inl e \<Rightarrow> (Inl e, w4)
                          | Inr data \<Rightarrow>
                             (case choose_id sv found w4 of
                                (i, w5) \<Rightarrow>
                                 (let payload =
                                        \<lparr>row_id = i, externalId = videoId, type = youtube_summary,
                                         output = \<lparr>metadata = videoSnippet, en = data\<rparr>,
                                         usage = completion_usage result\<rparr>;
                                      w6 = log (Upsert payload) w5
                                  in case upsert (store w6) i payload payload of
                                    Inl e \<Rightarrow> (Inl e, w6)
                                  | Inr (out, rows) \<Rightarrow> (Inr out, w6\<lparr>store := rows\<rparr>)))))))))"

text \<open>Lines 53 to 78. The snippet is fetched with \<^verbatim>\<open>videoId!\<close> before the test of
  \<^verbatim>\<open>!videoId\<close>, which an absent and an empty identifier both pass.\<close>

definition createYoutubeSummary ::
  "'l services \<Rightarrow> request \<Rightarrow> 'l world \<Rightarrow> (error + LLMTaskOutput) \<times> 'l world" where
  "createYoutubeSummary sv req w =
     (case YoutubeSummarySchema_parse sv (body req) of
        Inl e \<Rightarrow> (Inl e, w)
      | Inr url \<Rightarrow>
         (let videoId = extractVideoId sv url;
              w1 = log (GetVideoSnippetById videoId) w
          in case getVideoSnippetById sv videoId of
            Inl e \<Rightarrow> (Inl e, w1)
          | Inr videoSnippet \<Rightarrow>
             (case videoId of
                None \<Rightarrow> (Inl InvalidVideoUrl, w1)
              | Some vid \<Rightarrow>
                  if vid = [] then (Inl InvalidVideoUrl, w1)
                  else
                   (let found = findUnique (store w1) youtube_summary vid;
                        w2 = log (FindUnique vid) w1
                    in if found \<noteq> None \<and> \<not> refresh req then (Inr (the found), w2)
                       else summarize_and_upsert sv req url vid videoSnippet found w2))))"

text \<open>The calls one request adds to the trace.\<close>

definition new_calls :: "'l services \<Rightarrow> request \<Rightarrow> 'l world \<Rightarrow> call list" where
  "new_calls sv req w = drop (length (trace w)) (trace (snd (createYoutubeSummary sv req w)))"


section \<open>The contracts of two absent libraries\<close>


text \<open>
  Modelled from the spec: the pieces of a text cut greedily, each piece taking
  characters while it stays within the budget (the code of \<^verbatim>\<open>splitTextByToken\<close> is not
  in the sources).
\<close>

fun chunks_from :: "(string \<Rightarrow> nat) \<Rightarrow> rat \<Rightarrow> string \<Rightarrow> string \<Rightarrow> string list" where
  "chunks_from count budget cur [] = [cur]"
| "chunks_from count budget cur (c # cs) =
     (if of_nat (count (cur @ [c])) \<le> budget then chunks_from count budget (cur @ [c]) cs
      else cur # chunks_from count budget [c] cs)"

text \<open>
  Modelled from the spec: a splitter with the contract above in place of the absent
  \<^verbatim>\<open>splitTextByToken\<close>. A text within the budget is its own single chunk; otherwise
  the text is cut greedily, and the call rejects when a piece cannot be kept within the
  budget.
\<close>

definition splitTextByToken_spec ::
  "(string \<Rightarrow> nat) \<Rightarrow> string \<Rightarrow> rat \<Rightarrow> error + string list" where
  "splitTextByToken_spec count txt budget =
     (if of_nat (count txt) \<le> budget then Inr [txt]
      else let chunks = chunks_from count budget [] txt
           in if list_all (\<lambda>c. of_nat (count c) \<le> budget) chunks then Inr chunks
              else Inl (Thrown ''splitTextByToken''))"

text \<open>
  Modelled from the spec: the state of the absent \<^verbatim>\<open>rateLimit\<close> middleware
  (\<^verbatim>\<open>@chaindesk/lib/middlewares/rate-limit\<close>), the time in seconds and the admitted calls
  with their callers and times.
\<close>

record limiter_state =
  now :: nat
  hits :: "(string \<times> nat) list"

text \<open>
  Modelled from the spec: the \<^verbatim>\<open>rateLimit\<close> middleware, which is not in the sources.
  The spec says a throttle of N calls per time window whose excess fails the request: a
  caller with \<^term>\<open>limit\<close> admitted calls in the last \<^term>\<open>duration\<close> seconds is
  rejected, any other call is admitted and recorded.
\<close>

definition rateLimit_spec ::
  "nat \<Rightarrow> nat \<Rightarrow> request \<Rightarrow> limiter_state \<Rightarrow> error option \<times> limiter_state" where
  "rateLimit_spec duration limit req l =
     (if limit \<le> length (filter (\<lambda>h. fst h = client req \<and> now l < snd h + duration) (hits l))
      then (Some (Thrown ''rate limit exceeded''), l)
      else (None, l\<lparr>hits := hits l @ [(client req, now l)]\<rparr>))"

section \<open>A test double of the services\<close>

text \<open>
  Concrete services on which the handler can be run: the body is the URL itself, a
  video identifier is what follows \<^verbatim>\<open>https://youtu.be/\<close>, every video has the same
  three transcript lines, a token is a character, and the model answers with fixed
  arguments that the parser accepts unless they are absent.
\<close>

definition test_services :: "limiter_state services" where
  "test_services =
     \<lparr>YoutubeSummarySchema_parse = (\<lambda>b. if b = [] then Inl (Thrown ''ZodError'') else Inr b),
      extractVideoId =
        (\<lambda>url. if startsWith url ''https://youtu.be/'' then Some (drop 17 url) else None),
      getVideoSnippetById = (\<lambda>v. Inr (''snippet of '' @ template_str v)),
      transcribeVideo =
        (\<lambda>url. Inr [\<lparr>text = ''- Intro'', offset = 0\<rparr>, \<lparr>text = ''more'', offset = 1200\<rparr>,
                    \<lparr>text = ''- Next part'', offset = 5000\<rparr>]),
      maxTokens = 100,
      model_name = ''gpt-4-turbo'',
      splitTextByToken = splitTextByToken_spec length,
      rateLimit = rateLimit_spec,
      model_call =
        (\<lambda>m content. Inr \<lparr>arguments = Some (''summary of '' @ content),
                            completion_usage = Some ''usage''\<rparr>),
      zodParseJSON = (\<lambda>a. case a of None \<Rightarrow> Inl (Thrown ''ZodError'') | Some x \<Rightarrow> Inr x),
      cuid = (\<lambda>n. ''c'' @ show_nat n)\<rparr>"

definition test_world :: "limiter_state world" where
  "test_world = \<lparr>store = [], limiter = \<lparr>now = 0, hits = []\<rparr>, minted = 0, trace = []\<rparr>"

definition test_request :: "string \<Rightarrow> request" where
  "test_request url =
     \<lparr>body = url, query_refresh = None, session_roles = None, client = ''10.0.0.1''\<rparr>"

text \<open>
  Variations for single scenarios: a store that already holds a summary of the video
  \<^verbatim>\<open>abc\<close>, services whose metadata call rejects, whose model answers without tool-call
  arguments, or whose model has a context of 20 tokens, the world after two requests for
  two new videos, a privileged refresh request, and the row such a refresh writes.
\<close>

definition cached_row :: LLMTaskOutput where
  "cached_row =
     \<lparr>row_id = ''c0'', externalId = ''abc'', type = youtube_summary,
      output = \<lparr>metadata = ''snippet of abc'', en = ''an earlier summary''\<rparr>,
      usage = Some ''usage''\<rparr>"

definition cached_world :: "limiter_state world" where
  "cached_world = test_world\<lparr>store := [cached_row]\<rparr>"

definition snippet_down_services :: "limiter_state services" where
  "snippet_down_services =
     test_services\<lparr>getVideoSnippetById := (\<lambda>v. Inl (Thrown ''YoutubeApi''))\<rparr>"

definition malformed_answer_services :: "limiter_state services" where
  "malformed_answer_services =
     test_services\<lparr>model_call := (\<lambda>m content. Inr \<lparr>arguments = None, completion_usage = None\<rparr>)\<rparr>"


definition two_posts_world :: "limiter_state world" where
  "two_posts_world =
     snd (createYoutubeSummary test_services (test_request ''https://youtu.be/def'')
       (snd (createYoutubeSummary test_services (test_request ''https://youtu.be/abc'') test_world)))"



text \<open>The lines of the spec's example.\<close>

definition example_lines :: "transcript list" where
  "example_lines =
     [\<lparr>text = ''- Intro'', offset = 0\<rparr>, \<lparr>text = ''more'', offset = 1200\<rparr>,
      \<lparr>text = ''- Next part'', offset = 5000\<rparr>]"

section \<open>Grouping: the loop, the groups and the merged segments\<close>

text \<open>
  The loop of \<^verbatim>\<open>groupBySentences\<close> is a left fold, so one more line at the end of the
  input is one more step from the state the shorter input leaves. After a first line the
  current group is never empty, which is why the final flush always pushes it.
\<close>

lemma foldl_snoc_state:
  "foldl forEach_body s (ls @ [l]) = forEach_body (foldl forEach_body s ls) l"
  by simp

lemma forEach_body_currentGroup: "snd (forEach_body st l) \<noteq> []"
  by (cases st) (simp add: Let_def)

lemma currentGroup_nonempty:
  "ls \<noteq> [] \<Longrightarrow> snd (foldl forEach_body s ls) \<noteq> []"
  by (cases ls rule: rev_cases) (simp_all add: forEach_body_currentGroup)

lemma groupedTranscripts_Nil: "groupedTranscripts [] = []"
  by (simp add: groupedTranscripts_def)

lemma groupedTranscripts_single: "groupedTranscripts [l] = [[l]]"
  by (simp add: groupedTranscripts_def Let_def)

lemma groupedTranscripts_snoc:
  assumes "ls \<noteq> []"
  shows "groupedTranscripts (ls @ [l]) =
    (if startsWith (trim (text l)) ''-'' then groupedTranscripts ls @ [[l]]
     else butlast (groupedTranscripts ls) @ [last (groupedTranscripts ls) @ [l]])"
proof -
  obtain g c where gc: "foldl forEach_body ([], []) ls = (g, c)" by (cases "foldl forEach_body ([], []) ls")
  with currentGroup_nonempty[OF assms, of "([], [])"] have "c \<noteq> []" by simp
  then show ?thesis using gc by (simp add: groupedTranscripts_def Let_def)
qed

lemma reduce_from_snoc:
  "reduce_from f acc i (xs @ [x]) = f (reduce_from f acc i xs) x (i + length xs)"
  by (induction xs arbitrary: acc i) simp_all

lemma reduce_single:
  "reduce reduce_callback empty_object [l] = \<lparr>seg_text = Some (text l), seg_offset = Some (offset l)\<rparr>"
  by (simp add: reduce_def reduce_callback_def)

lemma reduce_snoc:
  "c \<noteq> [] \<Longrightarrow> reduce reduce_callback empty_object (c @ [l]) =
     (reduce reduce_callback empty_object c)
       \<lparr>seg_text := Some (template_str (seg_text (reduce reduce_callback empty_object c)) @ '' '' @ text l)\<rparr>"
  by (simp add: reduce_def reduce_from_snoc reduce_callback_def)

lemma groups_nonempty: "g \<in> set (groupedTranscripts ls) \<Longrightarrow> g \<noteq> []"
proof (induction ls arbitrary: g rule: rev_induct)
  case Nil
  then show ?case by (simp add: groupedTranscripts_Nil)
next
  case (snoc l ls)
  show ?case
  proof (cases "ls = []")
    case True
    with snoc.prems show ?thesis by (simp add: groupedTranscripts_single)
  next
    case False
    have ne: "groupedTranscripts ls \<noteq> []"
      using False currentGroup_nonempty[of ls "([], [])"]
      by (auto simp: groupedTranscripts_def Let_def split: prod.splits)
    from snoc.prems False show ?thesis
      using snoc.IH ne
      by (auto simp: groupedTranscripts_snoc split: if_splits dest: in_set_butlastD)
  qed
qed

lemma concat_groups: "concat (groupedTranscripts ls) = ls"
proof (induction ls rule: rev_induct)
  case Nil
  then show ?case by (simp add: groupedTranscripts_Nil)
next
  case (snoc l ls)
  show ?case
  proof (cases "ls = []")
    case True
    then show ?thesis by (simp add: groupedTranscripts_single)
  next
    case False
    have ne: "groupedTranscripts ls \<noteq> []"
      using False currentGroup_nonempty[of ls "([], [])"]
      by (auto simp: groupedTranscripts_def Let_def split: prod.splits)
    have "concat (butlast (groupedTranscripts ls)) @ last (groupedTranscripts ls) = concat (groupedTranscripts ls)"
      using ne by (metis append_butlast_last_id concat.simps concat_append append_Nil2)
    with snoc.IH False show ?thesis
      by (simp add: groupedTranscripts_snoc)
  qed
qed


lemma groupedTranscripts_nonempty: "ls \<noteq> [] \<Longrightarrow> groupedTranscripts ls \<noteq> []"
  using currentGroup_nonempty[of ls "([], [])"]
  by (auto simp: groupedTranscripts_def Let_def split: prod.splits)

lemma join_snoc: "xs \<noteq> [] \<Longrightarrow> join sep (xs @ [x]) = join sep xs @ sep @ x"
  by (induction sep xs rule: join.induct) simp_all

lemma join_append:
  "xs \<noteq> [] \<Longrightarrow> ys \<noteq> [] \<Longrightarrow> join sep (xs @ ys) = join sep xs @ sep @ join sep ys"
  by (induction sep xs rule: join.induct) (simp_all, cases ys, simp_all)

lemma reduce_group:
  "g \<noteq> [] \<Longrightarrow> reduce reduce_callback empty_object g =
     \<lparr>seg_text = Some (join '' '' (map text g)), seg_offset = Some (offset (hd g))\<rparr>"
proof (induction g rule: rev_induct)
  case Nil
  then show ?case by simp
next
  case (snoc l g)
  show ?case
  proof (cases "g = []")
    case True
    then show ?thesis by (simp add: reduce_single)
  next
    case False
    with snoc.IH show ?thesis by (simp add: reduce_snoc join_snoc)
  qed
qed

lemma groupBySentences_groups:
  "groupBySentences ls =
     map (\<lambda>g. \<lparr>seg_text = Some (join '' '' (map text g)), seg_offset = Some (offset (hd g))\<rparr>)
       (groupedTranscripts ls)"
  by (simp add: groupBySentences_def reduce_group groups_nonempty)

lemma join_concat:
  "\<forall>g \<in> set gs. g \<noteq> [] \<Longrightarrow> join sep (map (join sep) gs) = join sep (concat gs)"
proof (induction gs rule: rev_induct)
  case Nil
  then show ?case by simp
next
  case (snoc g gs)
  show ?case
  proof (cases "gs = []")
    case True
    then show ?thesis by simp
  next
    case False
    then have "concat gs \<noteq> []" using snoc.prems by (cases gs) auto
    with snoc False show ?thesis by (simp add: join_snoc join_append)
  qed
qed

lemma segments_defined:
  "s \<in> set (groupBySentences ls) \<Longrightarrow> seg_text s \<noteq> None \<and> seg_offset s \<noteq> None"
  by (auto simp: groupBySentences_groups)

lemma example_grouped:
  "groupBySentences example_lines =
     [\<lparr>seg_text = Some ''- Intro more'', seg_offset = Some 0\<rparr>,
      \<lparr>seg_text = Some ''- Next part'', seg_offset = Some 5000\<rparr>]"
  by code_simp


lemma format_group:
  "format_segment \<lparr>seg_text = Some (join '' '' (map text g)), seg_offset = Some (offset (hd g))\<rparr> =
     ''['' @ show_int (offset_seconds (offset (hd g))) @ ''s] '' @ replace_marker (join '' '' (map text g))"
  by (simp add: format_segment_def format_offset_def)


lemma trim_dash_nonempty: "startsWith (trim s) ''-'' \<Longrightarrow> s \<noteq> []"
  by (auto simp: startsWith_def trim_def)

lemma trim_single: "startsWith (trim [c]) ''-'' \<Longrightarrow> c = CHR ''-''"
  by (auto simp: startsWith_def trim_def split: if_splits)

lemma new_group_run:
  assumes "startsWith (trim (text l)) ''-''"
    and "\<forall>r \<in> set rest. \<not> startsWith (trim (text r)) ''-''"
  shows "groupedTranscripts (ls @ l # rest) = groupedTranscripts ls @ [l # rest]"
  using assms(2)
proof (induction rest rule: rev_induct)
  case Nil
  show ?case
  proof (cases "ls = []")
    case True
    then show ?thesis by (simp add: groupedTranscripts_single groupedTranscripts_Nil)
  next
    case False
    then show ?thesis using assms(1) by (simp add: groupedTranscripts_snoc)
  qed
next
  case (snoc r rest)
  then have IH: "groupedTranscripts (ls @ l # rest) = groupedTranscripts ls @ [l # rest]"
    and nd: "\<not> startsWith (trim (text r)) ''-''" by simp_all
  have "groupedTranscripts ((ls @ l # rest) @ [r]) =
        butlast (groupedTranscripts (ls @ l # rest)) @ [last (groupedTranscripts (ls @ l # rest)) @ [r]]"
    using nd by (subst groupedTranscripts_snoc) simp_all
  then show ?case by (simp add: IH butlast_append)
qed

lemma merged_marker:
  assumes "startsWith (trim t) ''-''" and "\<not> startsWith t ''- ''"
  shows "replace_marker (join '' '' (t # ts)) =
           (if t = ''-'' \<and> ts \<noteq> [] then join '' '' ts else join '' '' (t # ts))"
proof (cases t)
  case Nil
  with trim_dash_nonempty[OF assms(1)] show ?thesis by simp
next
  case (Cons c cs)
  show ?thesis
  proof (cases cs)
    case Nil
    with Cons assms(1) have t: "t = ''-''" using trim_single by simp
    show ?thesis by (cases ts) (simp_all add: t replace_marker_def startsWith_def)
  next
    case (Cons d ds)
    with \<open>t = c # cs\<close> assms(2) show ?thesis
      by (cases ts) (auto simp: replace_marker_def startsWith_def)
  qed
qed

section \<open>Properties of the grouping and of the assembled text\<close>

text \<open>
  C3. \<^verbatim>\<open>groupBySentences\<close> scans the lines in order. No line gives no segment; a single
  line gives one segment with that line's text and offset; and a line \<open>l\<close> after a
  non-empty input \<open>ls\<close> either starts a new segment, exactly when its trimmed text begins
  with a dash, or has its text appended after one space to the last segment, whose offset
  (that of the segment's first line) stays. The equations account for the line read last,
  so the last group is flushed at the end of the input; no segment has an undefined
  field.
\<close>

theorem groupBySentences_scan:
  "groupBySentences [] = [] \<and>
   groupBySentences [l] = [\<lparr>seg_text = Some (text l), seg_offset = Some (offset l)\<rparr>] \<and>
   (ls \<noteq> [] \<longrightarrow>
      groupBySentences (ls @ [l]) =
        (if startsWith (trim (text l)) ''-''
         then groupBySentences ls @ [\<lparr>seg_text = Some (text l), seg_offset = Some (offset l)\<rparr>]
         else butlast (groupBySentences ls) @
              [(last (groupBySentences ls))
                 \<lparr>seg_text :=
                    Some (template_str (seg_text (last (groupBySentences ls))) @ '' '' @ text l)\<rparr>])) \<and>
   (\<forall>s \<in> set (groupBySentences ls). seg_text s \<noteq> None \<and> seg_offset s \<noteq> None)"
proof -
  let ?m = "reduce reduce_callback empty_object"
  have nil: "groupBySentences [] = []"
    by (simp add: groupBySentences_def groupedTranscripts_Nil)
  have single: "groupBySentences [l] = [\<lparr>seg_text = Some (text l), seg_offset = Some (offset l)\<rparr>]"
    by (simp add: groupBySentences_def groupedTranscripts_single reduce_single)
  have snoc: "groupBySentences (ls @ [l]) =
        (if startsWith (trim (text l)) ''-''
         then groupBySentences ls @ [\<lparr>seg_text = Some (text l), seg_offset = Some (offset l)\<rparr>]
         else butlast (groupBySentences ls) @
              [(last (groupBySentences ls))
                 \<lparr>seg_text :=
                    Some (template_str (seg_text (last (groupBySentences ls))) @ '' '' @ text l)\<rparr>])"
    if ne: "ls \<noteq> []"
  proof (cases "startsWith (trim (text l)) ''-''")
    case True
    then show ?thesis
      by (simp add: groupBySentences_def groupedTranscripts_snoc[OF ne] reduce_single)
  next
    case False
    have gne: "groupedTranscripts ls \<noteq> []" by (rule groupedTranscripts_nonempty[OF ne])
    have lne: "last (groupedTranscripts ls) \<noteq> []"
      using gne groups_nonempty[of "last (groupedTranscripts ls)" ls] by simp
    have "map ?m (groupedTranscripts (ls @ [l])) =
          map ?m (butlast (groupedTranscripts ls)) @ [?m (last (groupedTranscripts ls) @ [l])]"
      using False by (simp add: groupedTranscripts_snoc[OF ne])
    also have "?m (last (groupedTranscripts ls) @ [l]) =
          (?m (last (groupedTranscripts ls)))
            \<lparr>seg_text := Some (template_str (seg_text (?m (last (groupedTranscripts ls)))) @ '' '' @ text l)\<rparr>"
      by (rule reduce_snoc[OF lne])
    finally show ?thesis
      using False gne by (simp add: groupBySentences_def map_butlast last_map)
  qed
  have defined: "\<forall>s \<in> set (groupBySentences ls). seg_text s \<noteq> None \<and> seg_offset s \<noteq> None"
    using segments_defined by blast
  from nil single snoc defined show ?thesis by blast
qed

text \<open>
  The three equations at the spec's example lines: the second line joins the first, the
  third starts a segment.
\<close>

theorem groupBySentences_scan_witness:
  "groupBySentences (take 2 example_lines @ [example_lines ! 2]) =
     [\<lparr>seg_text = Some ''- Intro more'', seg_offset = Some 0\<rparr>,
      \<lparr>seg_text = Some ''- Next part'', seg_offset = Some 5000\<rparr>] \<and>
   groupBySentences (take 1 example_lines @ [example_lines ! 1]) =
     [\<lparr>seg_text = Some ''- Intro more'', seg_offset = Some 0\<rparr>]"
  using groupBySentences_scan[of "example_lines ! 2" "take 2 example_lines"]
    groupBySentences_scan[of "example_lines ! 1" "take 1 example_lines"]
    groupBySentences_scan[of "example_lines ! 0" "[]"]
  by (simp add: example_lines_def startsWith_def trim_def isWhiteSpace_def)

text \<open>
  C4. The groups behind the segments are a partition of the input that keeps its order:
  concatenated they are the input, none is empty, and each segment is one group with its
  texts joined by single spaces under the offset of its first line. Hence the segment
  texts, joined by single spaces, are the line texts joined by single spaces; the dash
  markers are still in place on both sides, so the equality also holds with them ignored.
\<close>

theorem groupBySentences_partition:
  "concat (groupedTranscripts ls) = ls \<and>
   (\<forall>g \<in> set (groupedTranscripts ls). g \<noteq> []) \<and>
   groupBySentences ls =
     map (\<lambda>g. \<lparr>seg_text = Some (join '' '' (map text g)), seg_offset = Some (offset (hd g))\<rparr>)
       (groupedTranscripts ls) \<and>
   join '' '' (map (\<lambda>s. template_str (seg_text s)) (groupBySentences ls)) =
     join '' '' (map text ls)"
proof -
  have ne: "\<forall>g \<in> set (groupedTranscripts ls). g \<noteq> []" by (simp add: groups_nonempty)
  have "join '' '' (map (\<lambda>s. template_str (seg_text s)) (groupBySentences ls)) =
        join '' '' (map (join '' '') (map (map text) (groupedTranscripts ls)))"
    by (simp add: groupBySentences_groups comp_def)
  also have "\<dots> = join '' '' (concat (map (map text) (groupedTranscripts ls)))"
    using ne by (intro join_concat) simp
  also have "\<dots> = join '' '' (map text (concat (groupedTranscripts ls)))"
    by (simp add: map_concat)
  finally show ?thesis using ne by (simp add: concat_groups groupBySentences_groups)
qed

text \<open>
  The partition of the spec's example lines.
\<close>

theorem groupBySentences_partition_witness:
  "concat (groupedTranscripts example_lines) = example_lines \<and>
   groupedTranscripts example_lines = [take 2 example_lines, drop 2 example_lines] \<and>
   join '' '' (map (\<lambda>s. template_str (seg_text s)) (groupBySentences example_lines)) =
     ''- Intro more - Next part''"
  using groupBySentences_partition[of example_lines]
  by (simp add: example_lines_def groupedTranscripts_def startsWith_def trim_def isWhiteSpace_def)


text \<open>
  C10, as the code has it. The marker is stripped from the merged text of a segment, not
  from the line. A line \<open>l\<close> whose trimmed text begins with a dash and whose raw text does
  not begin with \<^verbatim>\<open>- \<close> starts a new segment together with the lines \<open>rest\<close> that
  follow without a dash, and its dash survives in the formatted segment, except when the
  raw text is the bare dash and a line follows in the segment: the space of the join then
  completes the prefix \<^verbatim>\<open>- \<close>, and the formatted text is that of the following lines.
\<close>

theorem marker_stripped_from_merged_text:
  assumes "startsWith (trim (text l)) ''-''"
    and "\<not> startsWith (text l) ''- ''"
    and "\<forall>r \<in> set rest. \<not> startsWith (trim (text r)) ''-''"
  shows "groupBySentences (ls @ l # rest) =
           groupBySentences ls @
             [\<lparr>seg_text = Some (join '' '' (map text (l # rest))), seg_offset = Some (offset l)\<rparr>] \<and>
         format_segment (last (groupBySentences (ls @ l # rest))) =
           ''['' @ show_int (offset_seconds (offset l)) @ ''s] '' @
             (if text l = ''-'' \<and> rest \<noteq> [] then join '' '' (map text rest)
              else join '' '' (map text (l # rest)))"
proof -
  have g: "groupBySentences (ls @ l # rest) =
           groupBySentences ls @
             [\<lparr>seg_text = Some (join '' '' (map text (l # rest))), seg_offset = Some (offset l)\<rparr>]"
    by (simp add: groupBySentences_groups new_group_run[OF assms(1,3)])
  have "format_segment \<lparr>seg_text = Some (join '' '' (map text (l # rest))), seg_offset = Some (offset l)\<rparr> =
        ''['' @ show_int (offset_seconds (offset l)) @ ''s] '' @
          replace_marker (join '' '' (text l # map text rest))"
    using format_group[of "l # rest"] by simp
  with g merged_marker[OF assms(1,2), of "map text rest"] show ?thesis by simp
qed

text \<open>
  The line \<^verbatim>\<open>-Intro\<close> after a first line: a new segment that keeps its dash.
\<close>

theorem marker_stripped_from_merged_text_witness:
  "format_segment (last (groupBySentences
     [\<lparr>text = ''Hello'', offset = 0\<rparr>, \<lparr>text = ''-Intro'', offset = 1000\<rparr>,
      \<lparr>text = ''more'', offset = 2000\<rparr>])) = ''[1s] -Intro more''"
proof -
  let ?l = "\<lparr>text = ''-Intro'', offset = 1000\<rparr>"
  let ?rest = "[\<lparr>text = ''more'', offset = 2000\<rparr>]"
  let ?ls = "[\<lparr>text = ''Hello'', offset = 0\<rparr>]"
  have h1: "startsWith (trim (text ?l)) ''-''" by code_simp
  have h2: "\<not> startsWith (text ?l) ''- ''" by code_simp
  have h3: "\<forall>r \<in> set ?rest. \<not> startsWith (trim (text r)) ''-''" by code_simp
  have "format_segment (last (groupBySentences (?ls @ ?l # ?rest))) =
          ''['' @ show_int (offset_seconds (offset ?l)) @ ''s] '' @
             (if text ?l = ''-'' \<and> ?rest \<noteq> [] then join '' '' (map text ?rest)
              else join '' '' (map text (?l # ?rest)))"
    using marker_stripped_from_merged_text[OF h1 h2 h3, of ?ls] by (rule conjunct2)
  also have "\<dots> = ''[1s] -Intro more''" by code_simp
  finally show ?thesis by simp
qed

text \<open>
  The bare dash: its trimmed text begins with a dash, its raw text does not begin with
  \<^verbatim>\<open>- \<close>, it starts the second segment, and no dash is left in the assembled text.
\<close>

theorem bare_dash_marker_stripped:
  "startsWith (trim ''-'') ''-'' \<and> \<not> startsWith ''-'' ''- '' \<and>
   groupBySentences [\<lparr>text = ''Hello'', offset = 0\<rparr>, \<lparr>text = ''-'', offset = 1000\<rparr>,
                     \<lparr>text = ''more'', offset = 2000\<rparr>] =
     [\<lparr>seg_text = Some ''Hello'', seg_offset = Some 0\<rparr>,
      \<lparr>seg_text = Some ''- more'', seg_offset = Some 1000\<rparr>] \<and>
   assemble_text [\<lparr>text = ''Hello'', offset = 0\<rparr>, \<lparr>text = ''-'', offset = 1000\<rparr>,
                  \<lparr>text = ''more'', offset = 2000\<rparr>] =
     ''[0s] Hello'' @ [CHR 0x0A] @ ''[1s] more''"
  by code_simp

section \<open>The ways a request can run\<close>

text \<open>
  Logging a call changes the trace only. A request runs in one of eleven ways, one for
  each place where the handler returns or an awaited call rejects; each way fixes the
  result, the calls issued, the store and the limiter state that the request leaves.
\<close>

lemma trace_log: "trace (log c w) = trace w @ [c]"
  and store_log: "store (log c w) = store w"
  and limiter_log: "limiter (log c w) = limiter w"
  and minted_log: "minted (log c w) = minted w"
  by (simp_all add: log_def)

lemma createYoutubeSummary_cases
  [case_names body_rejected snippet_failed invalid_url cache_hit summarize]:
  obtains
    e where "YoutubeSummarySchema_parse sv (body req) = Inl e"
      "createYoutubeSummary sv req w = (Inl e, w)"
  | url e where "YoutubeSummarySchema_parse sv (body req) = Inr url"
      "getVideoSnippetById sv (extractVideoId sv url) = Inl e"
      "createYoutubeSummary sv req w = (Inl e, log (GetVideoSnippetById (extractVideoId sv url)) w)"
  | url snippet where "YoutubeSummarySchema_parse sv (body req) = Inr url"
      "getVideoSnippetById sv (extractVideoId sv url) = Inr snippet"
      "extractVideoId sv url = None \<or> extractVideoId sv url = Some []"
      "createYoutubeSummary sv req w =
         (Inl InvalidVideoUrl, log (GetVideoSnippetById (extractVideoId sv url)) w)"
  | url snippet vid f where "YoutubeSummarySchema_parse sv (body req) = Inr url"
      "extractVideoId sv url = Some vid" "vid \<noteq> []"
      "getVideoSnippetById sv (Some vid) = Inr snippet"
      "findUnique (store w) youtube_summary vid = Some f" "\<not> refresh req"
      "createYoutubeSummary sv req w =
         (Inr f, log (FindUnique vid) (log (GetVideoSnippetById (Some vid)) w))"
  | url snippet vid where "YoutubeSummarySchema_parse sv (body req) = Inr url"
      "extractVideoId sv url = Some vid" "vid \<noteq> []"
      "getVideoSnippetById sv (Some vid) = Inr snippet"
      "findUnique (store w) youtube_summary vid = None \<or> refresh req"
      "createYoutubeSummary sv req w =
         summarize_and_upsert sv req url vid snippet (findUnique (store w) youtube_summary vid)
           (log (FindUnique vid) (log (GetVideoSnippetById (Some vid)) w))"
proof (cases "YoutubeSummarySchema_parse sv (body req)")
  case (Inl e)
  then show ?thesis using that(1) by (simp add: createYoutubeSummary_def)
next
  case url: (Inr url)
  let ?w1 = "log (GetVideoSnippetById (extractVideoId sv url)) w"
  show ?thesis
  proof (cases "getVideoSnippetById sv (extractVideoId sv url)")
    case (Inl e)
    with url show ?thesis using that(2) by (simp add: createYoutubeSummary_def Let_def)
  next
    case sn: (Inr snippet)
    show ?thesis
    proof (cases "extractVideoId sv url")
      case None
      with url sn show ?thesis using that(3) by (simp add: createYoutubeSummary_def Let_def)
    next
      case (Some vid)
      show ?thesis
      proof (cases "vid = []")
        case True
        with url sn Some show ?thesis using that(3)
          by (simp add: createYoutubeSummary_def Let_def)
      next
        case ne: False
        show ?thesis
        proof (cases "findUnique (store w) youtube_summary vid \<noteq> None \<and> \<not> refresh req")
          case True
          then obtain f where "findUnique (store w) youtube_summary vid = Some f" by auto
          with url sn Some ne True show ?thesis using that(4)
            by (simp add: createYoutubeSummary_def Let_def store_log)
        next
          case False
          then have d: "findUnique (store w) youtube_summary vid = None \<or> refresh req" by auto
          have "createYoutubeSummary sv req w =
                  summarize_and_upsert sv req url vid snippet (findUnique (store w) youtube_summary vid)
                    (log (FindUnique vid) (log (GetVideoSnippetById (Some vid)) w))"
            using url sn Some ne False by (auto simp: createYoutubeSummary_def Let_def store_log)
          with url sn Some ne d show ?thesis using that(5) by simp
        qed
      qed
    qed
  qed
qed

lemma summarize_and_upsert_cases
  [case_names transcript_failed split_failed rate_limited model_failed parse_failed
    upsert_failed written]:
  fixes sv :: "'l services" and w :: "'l world" and url :: string
  defines "w1 \<equiv> log (TranscribeVideo url) w"
  defines "budget \<equiv> (of_nat (maxTokens sv) * 7 / 10 :: rat)"
  obtains
    e where "transcribeVideo sv url = Inl e"
      "summarize_and_upsert sv req url vid snippet found w = (Inl e, w1)"
  | ts e where "transcribeVideo sv url = Inr ts"
      "splitTextByToken sv (assemble_text ts) budget = Inl e"
      "summarize_and_upsert sv req url vid snippet found w =
         (Inl e, log (SplitTextByToken (assemble_text ts) budget) w1)"
  | ts chunks e l' where "transcribeVideo sv url = Inr ts"
      "splitTextByToken sv (assemble_text ts) budget = Inr chunks"
      "rateLimit sv 60 2 req (limiter w) = (Some e, l')"
      "summarize_and_upsert sv req url vid snippet found w =
         (Inl e, log (RateLimit 60 2)
            ((log (SplitTextByToken (assemble_text ts) budget) w1)\<lparr>limiter := l'\<rparr>))"
  | ts chunks l' content w4 e where "transcribeVideo sv url = Inr ts"
      "splitTextByToken sv (assemble_text ts) budget = Inr chunks"
      "rateLimit sv 60 2 req (limiter w) = (None, l')"
      "content = ''Youtube video transcript: '' @
         template_str (case chunks of [] \<Rightarrow> None | c # _ \<Rightarrow> Some c)"
      "w4 = log (ModelCall (model_name sv) content) (log (RateLimit 60 2)
            ((log (SplitTextByToken (assemble_text ts) budget) w1)\<lparr>limiter := l'\<rparr>))"
      "model_call sv (model_name sv) content = Inl e"
      "summarize_and_upsert sv req url vid snippet found w = (Inl e, w4)"
  | ts chunks l' content w4 result e where "transcribeVideo sv url = Inr ts"
      "splitTextByToken sv (assemble_text ts) budget = Inr chunks"
      "rateLimit sv 60 2 req (limiter w) = (None, l')"
      "content = ''Youtube video transcript: '' @
         template_str (case chunks of [] \<Rightarrow> None | c # _ \<Rightarrow> Some c)"
      "w4 = log (ModelCall (model_name sv) content) (log (RateLimit 60 2)
            ((log (SplitTextByToken (assemble_text ts) budget) w1)\<lparr>limiter := l'\<rparr>))"
      "model_call sv (model_name sv) content = Inr result"
      "zodParseJSON sv (arguments result) = Inl e"
      "summarize_and_upsert sv req url vid snippet found w = (Inl e, w4)"
  | ts chunks l' content w4 result data i w5 payload e where "transcribeVideo sv url = Inr ts"
      "splitTextByToken sv (assemble_text ts) budget = Inr chunks"
      "rateLimit sv 60 2 req (limiter w) = (None, l')"
      "content = ''Youtube video transcript: '' @
         template_str (case chunks of [] \<Rightarrow> None | c # _ \<Rightarrow> Some c)"
      "w4 = log (ModelCall (model_name sv) content) (log (RateLimit 60 2)
            ((log (SplitTextByToken (assemble_text ts) budget) w1)\<lparr>limiter := l'\<rparr>))"
      "model_call sv (model_name sv) content = Inr result"
      "zodParseJSON sv (arguments result) = Inr data"
      "choose_id sv found w4 = (i, w5)"
      "payload = \<lparr>row_id = i, externalId = vid, type = youtube_summary,
          output = \<lparr>metadata = snippet, en = data\<rparr>, usage = completion_usage result\<rparr>"
      "upsert (store w) i payload payload = Inl e"
      "summarize_and_upsert sv req url vid snippet found w = (Inl e, log (Upsert payload) w5)"
  | ts chunks l' content w4 result data i w5 payload rows where "transcribeVideo sv url = Inr ts"
      "splitTextByToken sv (assemble_text ts) budget = Inr chunks"
      "rateLimit sv 60 2 req (limiter w) = (None, l')"
      "content = ''Youtube video transcript: '' @
         template_str (case chunks of [] \<Rightarrow> None | c # _ \<Rightarrow> Some c)"
      "w4 = log (ModelCall (model_name sv) content) (log (RateLimit 60 2)
            ((log (SplitTextByToken (assemble_text ts) budget) w1)\<lparr>limiter := l'\<rparr>))"
      "model_call sv (model_name sv) content = Inr result"
      "zodParseJSON sv (arguments result) = Inr data"
      "choose_id sv found w4 = (i, w5)"
      "payload = \<lparr>row_id = i, externalId = vid, type = youtube_summary,
          output = \<lparr>metadata = snippet, en = data\<rparr>, usage = completion_usage result\<rparr>"
      "upsert (store w) i payload payload = Inr (payload, rows)"
      "summarize_and_upsert sv req url vid snippet found w =
         (Inr payload, (log (Upsert payload) w5)\<lparr>store := rows\<rparr>)"
proof (cases "transcribeVideo sv url")
  case (Inl e)
  then show ?thesis using that(1) by (simp add: summarize_and_upsert_def w1_def)
next
  case ts: (Inr ts)
  let ?w2 = "log (SplitTextByToken (assemble_text ts) budget) w1"
  show ?thesis
  proof (cases "splitTextByToken sv (assemble_text ts) budget")
    case (Inl e)
    with ts show ?thesis using that(2)
      by (simp add: summarize_and_upsert_def w1_def budget_def Let_def)
  next
    case ch: (Inr chunks)
    obtain verdict l' where rl: "rateLimit sv 60 2 req (limiter w) = (verdict, l')"
      by (cases "rateLimit sv 60 2 req (limiter w)")
    let ?w3 = "log (RateLimit 60 2) (?w2\<lparr>limiter := l'\<rparr>)"
    show ?thesis
    proof (cases verdict)
      case (Some e)
      with ts ch rl show ?thesis using that(3)
        by (simp add: summarize_and_upsert_def w1_def budget_def Let_def limiter_log)
    next
      case None
      define content where "content = ''Youtube video transcript: '' @
         template_str (case chunks of [] \<Rightarrow> None | c # _ \<Rightarrow> Some c)"
      define w4 where "w4 = log (ModelCall (model_name sv) content) ?w3"
      show ?thesis
      proof (cases "model_call sv (model_name sv) content")
        case (Inl e)
        with ts ch rl None show ?thesis using that(4)[OF _ _ _ content_def w4_def]
          by (simp add: summarize_and_upsert_def w1_def budget_def Let_def limiter_log
                content_def w4_def)
      next
        case res: (Inr result)
        show ?thesis
        proof (cases "zodParseJSON sv (arguments result)")
          case (Inl e)
          with ts ch rl None res show ?thesis using that(5)[OF _ _ _ content_def w4_def]
            by (simp add: summarize_and_upsert_def w1_def budget_def Let_def limiter_log
                  content_def w4_def)
        next
          case data: (Inr data)
          obtain i w5 where ci: "choose_id sv found w4 = (i, w5)"
            by (cases "choose_id sv found w4")
          define payload where "payload = \<lparr>row_id = i, externalId = vid, type = youtube_summary,
            output = \<lparr>metadata = snippet, en = data\<rparr>, usage = completion_usage result\<rparr>"
          have st: "store w5 = store w"
            using ci by (auto simp: choose_id_def w4_def w1_def store_log split: option.splits if_splits)
          show ?thesis
          proof (cases "upsert (store w) i payload payload")
            case (Inl e)
            with ts ch rl None res data ci st show ?thesis
              using that(6)[OF _ _ _ content_def w4_def _ _ _ payload_def]
              by (simp add: summarize_and_upsert_def w1_def budget_def Let_def limiter_log
                    store_log content_def w4_def payload_def)
          next
            case (Inr p)
            obtain out rows where p: "p = (out, rows)" by (cases p)
            have out: "out = payload"
              using Inr p by (auto simp: upsert_def split: option.splits if_splits)
            with Inr p ts ch rl None res data ci st show ?thesis
              using that(7)[OF _ _ _ content_def w4_def _ _ _ payload_def]
              by (simp add: summarize_and_upsert_def w1_def budget_def Let_def limiter_log
                    store_log content_def w4_def payload_def)
          qed
        qed
      qed
    qed
  qed
qed

lemma request_cases
  [case_names body_rejected snippet_failed invalid_url cache_hit transcript_failed
    split_failed rate_limited model_failed parse_failed upsert_failed written]:
  obtains
    (body_rejected) e where
      "YoutubeSummarySchema_parse sv (body req) = Inl e"
      "createYoutubeSummary sv req w = (Inl e, w)"
      "new_calls sv req w = []"
  | (snippet_failed) url e where
      "YoutubeSummarySchema_parse sv (body req) = Inr url"
      "getVideoSnippetById sv (extractVideoId sv url) = Inl e"
      "fst (createYoutubeSummary sv req w) = Inl e"
      "new_calls sv req w = [GetVideoSnippetById (extractVideoId sv url)]"
      "store (snd (createYoutubeSummary sv req w)) = store w"
      "limiter (snd (createYoutubeSummary sv req w)) = limiter w"
  | (invalid_url) url snippet where
      "YoutubeSummarySchema_parse sv (body req) = Inr url"
      "getVideoSnippetById sv (extractVideoId sv url) = Inr snippet"
      "extractVideoId sv url = None \<or> extractVideoId sv url = Some []"
      "fst (createYoutubeSummary sv req w) = Inl InvalidVideoUrl"
      "new_calls sv req w = [GetVideoSnippetById (extractVideoId sv url)]"
      "store (snd (createYoutubeSummary sv req w)) = store w"
      "limiter (snd (createYoutubeSummary sv req w)) = limiter w"
  | (cache_hit) url vid snippet f where
      "YoutubeSummarySchema_parse sv (body req) = Inr url"
      "extractVideoId sv url = Some vid"
      "vid \<noteq> []"
      "getVideoSnippetById sv (Some vid) = Inr snippet"
      "findUnique (store w) youtube_summary vid = Some f"
      "\<not> refresh req"
      "fst (createYoutubeSummary sv req w) = Inr f"
      "new_calls sv req w =
         [GetVideoSnippetById (Some vid),
          FindUnique vid]"
      "store (snd (createYoutubeSummary sv req w)) = store w"
      "limiter (snd (createYoutubeSummary sv req w)) = limiter w"
  | (transcript_failed) url vid snippet e where
      "YoutubeSummarySchema_parse sv (body req) = Inr url"
      "extractVideoId sv url = Some vid"
      "vid \<noteq> []"
      "getVideoSnippetById sv (Some vid) = Inr snippet"
      "findUnique (store w) youtube_summary vid = None \<or> refresh req"
      "transcribeVideo sv url = Inl e"
      "fst (createYoutubeSummary sv req w) = Inl e"
      "new_calls sv req w =
         [GetVideoSnippetById (Some vid),
          FindUnique vid,
          TranscribeVideo url]"
      "store (snd (createYoutubeSummary sv req w)) = store w"
      "limiter (snd (createYoutubeSummary sv req w)) = limiter w"
  | (split_failed) url vid snippet ts e where
      "YoutubeSummarySchema_parse sv (body req) = Inr url"
      "extractVideoId sv url = Some vid"
      "vid \<noteq> []"
      "getVideoSnippetById sv (Some vid) = Inr snippet"
      "findUnique (store w) youtube_summary vid = None \<or> refresh req"
      "transcribeVideo sv url = Inr ts"
      "splitTextByToken sv (assemble_text ts) (of_nat (maxTokens sv) * 7 / 10) = Inl e"
      "fst (createYoutubeSummary sv req w) = Inl e"
      "new_calls sv req w =
         [GetVideoSnippetById (Some vid),
          FindUnique vid,
          TranscribeVideo url,
          SplitTextByToken (assemble_text ts) (of_nat (maxTokens sv) * 7 / 10)]"
      "store (snd (createYoutubeSummary sv req w)) = store w"
      "limiter (snd (createYoutubeSummary sv req w)) = limiter w"
  | (rate_limited) url vid snippet ts chunks e l' where
      "YoutubeSummarySchema_parse sv (body req) = Inr url"
      "extractVideoId sv url = Some vid"
      "vid \<noteq> []"
      "getVideoSnippetById sv (Some vid) = Inr snippet"
      "findUnique (store w) youtube_summary vid = None \<or> refresh req"
      "transcribeVideo sv url = Inr ts"
      "splitTextByToken sv (assemble_text ts) (of_nat (maxTokens sv) * 7 / 10) = Inr chunks"
      "rateLimit sv 60 2 req (limiter w) = (Some e, l')"
      "fst (createYoutubeSummary sv req w) = Inl e"
      "new_calls sv req w =
         [GetVideoSnippetById (Some vid),
          FindUnique vid,
          TranscribeVideo url,
          SplitTextByToken (assemble_text ts) (of_nat (maxTokens sv) * 7 / 10),
          RateLimit 60 2]"
      "store (snd (createYoutubeSummary sv req w)) = store w"
      "limiter (snd (createYoutubeSummary sv req w)) = l'"
  | (model_failed) url vid snippet ts chunks l' content e where
      "YoutubeSummarySchema_parse sv (body req) = Inr url"
      "extractVideoId sv url = Some vid"
      "vid \<noteq> []"
      "getVideoSnippetById sv (Some vid) = Inr snippet"
      "findUnique (store w) youtube_summary vid = None \<or> refresh req"
      "transcribeVideo sv url = Inr ts"
      "splitTextByToken sv (assemble_text ts) (of_nat (maxTokens sv) * 7 / 10) = Inr chunks"
      "rateLimit sv 60 2 req (limiter w) = (None, l')"
      "content = ''Youtube video transcript: '' @
         template_str (case chunks of [] \<Rightarrow> None | c # _ \<Rightarrow> Some c)"
      "model_call sv (model_name sv) content = Inl e"
      "fst (createYoutubeSummary sv req w) = Inl e"
      "new_calls sv req w =
         [GetVideoSnippetById (Some vid),
          FindUnique vid,
          TranscribeVideo url,
          SplitTextByToken (assemble_text ts) (of_nat (maxTokens sv) * 7 / 10),
          RateLimit 60 2,
          ModelCall (model_name sv) content]"
      "store (snd (createYoutubeSummary sv req w)) = store w"
      "limiter (snd (createYoutubeSummary sv req w)) = l'"
  | (parse_failed) url vid snippet ts chunks l' content result e where
      "YoutubeSummarySchema_parse sv (body req) = Inr url"
      "extractVideoId sv url = Some vid"
      "vid \<noteq> []"
      "getVideoSnippetById sv (Some vid) = Inr snippet"
      "findUnique (store w) youtube_summary vid = None \<or> refresh req"
      "transcribeVideo sv url = Inr ts"
      "splitTextByToken sv (assemble_text ts) (of_nat (maxTokens sv) * 7 / 10) = Inr chunks"
      "rateLimit sv 60 2 req (limiter w) = (None, l')"
      "content = ''Youtube video transcript: '' @
         template_str (case chunks of [] \<Rightarrow> None | c # _ \<Rightarrow> Some c)"
      "model_call sv (model_name sv) content = Inr result"
      "zodParseJSON sv (arguments result) = Inl e"
      "fst (createYoutubeSummary sv req w) = Inl e"
      "new_calls sv req w =
         [GetVideoSnippetById (Some vid),
          FindUnique vid,
          TranscribeVideo url,
          SplitTextByToken (assemble_text ts) (of_nat (maxTokens sv) * 7 / 10),
          RateLimit 60 2,
          ModelCall (model_name sv) content]"
      "store (snd (createYoutubeSummary sv req w)) = store w"
      "limiter (snd (createYoutubeSummary sv req w)) = l'"
  | (upsert_failed) url vid snippet ts chunks l' content result data i payload e where
      "YoutubeSummarySchema_parse sv (body req) = Inr url"
      "extractVideoId sv url = Some vid"
      "vid \<noteq> []"
      "getVideoSnippetById sv (Some vid) = Inr snippet"
      "findUnique (store w) youtube_summary vid = None \<or> refresh req"
      "transcribeVideo sv url = Inr ts"
      "splitTextByToken sv (assemble_text ts) (of_nat (maxTokens sv) * 7 / 10) = Inr chunks"
      "rateLimit sv 60 2 req (limiter w) = (None, l')"
      "content = ''Youtube video transcript: '' @
         template_str (case chunks of [] \<Rightarrow> None | c # _ \<Rightarrow> Some c)"
      "model_call sv (model_name sv) content = Inr result"
      "zodParseJSON sv (arguments result) = Inr data"
      "i = (case findUnique (store w) youtube_summary vid of
              Some f \<Rightarrow> if row_id f \<noteq> [] then row_id f else cuid sv (minted w)
            | None \<Rightarrow> cuid sv (minted w))"
      "payload = \<lparr>row_id = i, externalId = vid, type = youtube_summary,
          output = \<lparr>metadata = snippet, en = data\<rparr>, usage = completion_usage result\<rparr>"
      "upsert (store w) i payload payload = Inl e"
      "fst (createYoutubeSummary sv req w) = Inl e"
      "new_calls sv req w =
         [GetVideoSnippetById (Some vid),
          FindUnique vid,
          TranscribeVideo url,
          SplitTextByToken (assemble_text ts) (of_nat (maxTokens sv) * 7 / 10),
          RateLimit 60 2,
          ModelCall (model_name sv) content,
          Upsert payload]"
      "store (snd (createYoutubeSummary sv req w)) = store w"
      "limiter (snd (createYoutubeSummary sv req w)) = l'"
  | (written) url vid snippet ts chunks l' content result data i payload rows where
      "YoutubeSummarySchema_parse sv (body req) = Inr url"
      "extractVideoId sv url = Some vid"
      "vid \<noteq> []"
      "getVideoSnippetById sv (Some vid) = Inr snippet"
      "findUnique (store w) youtube_summary vid = None \<or> refresh req"
      "transcribeVideo sv url = Inr ts"
      "splitTextByToken sv (assemble_text ts) (of_nat (maxTokens sv) * 7 / 10) = Inr chunks"
      "rateLimit sv 60 2 req (limiter w) = (None, l')"
      "content = ''Youtube video transcript: '' @
         template_str (case chunks of [] \<Rightarrow> None | c # _ \<Rightarrow> Some c)"
      "model_call sv (model_name sv) content = Inr result"
      "zodParseJSON sv (arguments result) = Inr data"
      "i = (case findUnique (store w) youtube_summary vid of
              Some f \<Rightarrow> if row_id f \<noteq> [] then row_id f else cuid sv (minted w)
            | None \<Rightarrow> cuid sv (minted w))"
      "payload = \<lparr>row_id = i, externalId = vid, type = youtube_summary,
          output = \<lparr>metadata = snippet, en = data\<rparr>, usage = completion_usage result\<rparr>"
      "upsert (store w) i payload payload = Inr (payload, rows)"
      "fst (createYoutubeSummary sv req w) = Inr payload"
      "new_calls sv req w =
         [GetVideoSnippetById (Some vid),
          FindUnique vid,
          TranscribeVideo url,
          SplitTextByToken (assemble_text ts) (of_nat (maxTokens sv) * 7 / 10),
          RateLimit 60 2,
          ModelCall (model_name sv) content,
          Upsert payload]"
      "store (snd (createYoutubeSummary sv req w)) = rows"
      "limiter (snd (createYoutubeSummary sv req w)) = l'"
proof (cases rule: createYoutubeSummary_cases[of sv req w])
  case (body_rejected e)
  then show ?thesis using that(1) by (simp add: new_calls_def)
next
  case (snippet_failed url e)
  then show ?thesis using that(2)
    by (simp add: new_calls_def trace_log store_log limiter_log)
next
  case (invalid_url url snippet)
  then show ?thesis using that(3)
    by (simp add: new_calls_def trace_log store_log limiter_log)
next
  case (cache_hit url snippet vid f)
  then show ?thesis using that(4)
    by (simp add: new_calls_def trace_log store_log limiter_log)
next
  case (summarize url snippet vid)
  let ?found = "findUnique (store w) youtube_summary vid"
  let ?w2 = "log (FindUnique vid) (log (GetVideoSnippetById (Some vid)) w)"
  note pre = summarize(1-5)
  have frame: "store ?w2 = store w" "limiter ?w2 = limiter w" "minted ?w2 = minted w"
    "trace ?w2 = trace w @ [GetVideoSnippetById (Some vid), FindUnique vid]"
    by (simp_all add: trace_log store_log limiter_log minted_log)
  show ?thesis
  proof (cases rule: summarize_and_upsert_cases[where sv = sv and url = url and w = ?w2
      and req = req and vid = vid and snippet = snippet and found = ?found])
    case (transcript_failed e)
    with pre summarize(6) frame show ?thesis using that(5)
      by (simp add: new_calls_def trace_log store_log limiter_log)
  next
    case (split_failed ts e)
    with pre summarize(6) frame show ?thesis using that(6)
      by (simp add: new_calls_def trace_log store_log limiter_log)
  next
    case (rate_limited ts chunks e l')
    with pre summarize(6) frame show ?thesis using that(7)
      by (simp add: new_calls_def trace_log store_log limiter_log)
  next
    case (model_failed ts chunks l' content w4 e)
    with pre summarize(6) frame show ?thesis using that(8)
      by (simp add: new_calls_def trace_log store_log limiter_log)
  next
    case (parse_failed ts chunks l' content w4 result e)
    with pre summarize(6) frame show ?thesis using that(9)
      by (simp add: new_calls_def trace_log store_log limiter_log)
  next
    case (upsert_failed ts chunks l' content w4 result data i w5 payload e)
    have m4: "minted w4 = minted w" "store w4 = store w" "limiter w4 = l'"
      "trace w4 = trace w @
        [GetVideoSnippetById (Some vid), FindUnique vid, TranscribeVideo url,
         SplitTextByToken (assemble_text ts) (of_nat (maxTokens sv) * 7 / 10),
         RateLimit 60 2, ModelCall (model_name sv) content]"
      using upsert_failed(5) frame by (simp_all add: trace_log minted_log limiter_log store_log)
    have c5: "trace w5 = trace w4" "limiter w5 = limiter w4" "store w5 = store w4"
      and i: "i = (case ?found of Some f \<Rightarrow> if row_id f \<noteq> [] then row_id f else cuid sv (minted w)
            | None \<Rightarrow> cuid sv (minted w))"
      using upsert_failed(8) m4(1) by (auto simp: choose_id_def split: option.splits if_splits)
    have rl: "rateLimit sv 60 2 req (limiter w) = (None, l')"
      using upsert_failed(3) frame by simp
    have up: "upsert (store w) i payload payload = Inl e"
      using upsert_failed(10) frame by simp
    have run: "createYoutubeSummary sv req w = (Inl e, log (Upsert payload) w5)"
      using summarize(6) upsert_failed(11) by simp
    have r1: "fst (createYoutubeSummary sv req w) = Inl e" by (simp add: run)
    have r2: "new_calls sv req w =
        [GetVideoSnippetById (Some vid), FindUnique vid, TranscribeVideo url,
         SplitTextByToken (assemble_text ts) (of_nat (maxTokens sv) * 7 / 10),
         RateLimit 60 2, ModelCall (model_name sv) content, Upsert payload]"
      by (simp add: new_calls_def run trace_log c5 m4)
    have r3: "store (snd (createYoutubeSummary sv req w)) = store w"
      by (simp add: run store_log c5 m4)
    have r4: "limiter (snd (createYoutubeSummary sv req w)) = l'"
      by (simp add: run limiter_log c5 m4)
    show ?thesis
      by (rule that(10)[OF pre upsert_failed(1,2) rl upsert_failed(4,6,7) i upsert_failed(9) up r1 r2 r3 r4])
  next
    case (written ts chunks l' content w4 result data i w5 payload rows)
    have m4: "minted w4 = minted w" "store w4 = store w" "limiter w4 = l'"
      "trace w4 = trace w @
        [GetVideoSnippetById (Some vid), FindUnique vid, TranscribeVideo url,
         SplitTextByToken (assemble_text ts) (of_nat (maxTokens sv) * 7 / 10),
         RateLimit 60 2, ModelCall (model_name sv) content]"
      using written(5) frame by (simp_all add: trace_log minted_log limiter_log store_log)
    have c5: "trace w5 = trace w4" "limiter w5 = limiter w4" "store w5 = store w4"
      and i: "i = (case ?found of Some f \<Rightarrow> if row_id f \<noteq> [] then row_id f else cuid sv (minted w)
            | None \<Rightarrow> cuid sv (minted w))"
      using written(8) m4(1) by (auto simp: choose_id_def split: option.splits if_splits)
    have rl: "rateLimit sv 60 2 req (limiter w) = (None, l')"
      using written(3) frame by simp
    have up: "upsert (store w) i payload payload = Inr (payload, rows)"
      using written(10) frame by simp
    have run: "createYoutubeSummary sv req w = (Inr payload, (log (Upsert payload) w5)\<lparr>store := rows\<rparr>)"
      using summarize(6) written(11) by simp
    have r1: "fst (createYoutubeSummary sv req w) = Inr payload" by (simp add: run)
    have r2: "new_calls sv req w =
        [GetVideoSnippetById (Some vid), FindUnique vid, TranscribeVideo url,
         SplitTextByToken (assemble_text ts) (of_nat (maxTokens sv) * 7 / 10),
         RateLimit 60 2, ModelCall (model_name sv) content, Upsert payload]"
      by (simp add: new_calls_def run trace_log c5 m4)
    have r3: "store (snd (createYoutubeSummary sv req w)) = rows"
      by (simp add: run store_log c5 m4)
    have r4: "limiter (snd (createYoutubeSummary sv req w)) = l'"
      by (simp add: run limiter_log c5 m4)
    show ?thesis
      by (rule that(11)[OF pre written(1,2) rl written(4,6,7) i written(9) up r1 r2 r3 r4])
  qed
qed

lemma adjacent_calls:
  "xs = a # b # c # d # r # m # post \<Longrightarrow> \<exists>pre post'. xs = pre @ r # m # post'"
  by (rule exI[of _ "[a, b, c, d]"]) simp

section \<open>The store under an upsert\<close>













section \<open>The splitter modelled from the spec\<close>



section \<open>Properties of the handler\<close>

text \<open>
  C1, as the code has it. When the URL of the body yields no video identifier (or an
  empty one), the request does write no record, but it is not free of external calls:
  the only call it issues is the metadata call \<^verbatim>\<open>getVideoSnippetById\<close> of line 58, made
  with the undefined identifier before the test of line 63. The request fails with the
  validation error when that call resolves, and with the call's own error when it
  rejects.
\<close>

theorem snippet_fetched_before_validation:
  assumes "YoutubeSummarySchema_parse sv (body req) = Inr url"
    and "extractVideoId sv url = v" and "v = None \<or> v = Some []"
  shows "new_calls sv req w = [GetVideoSnippetById v] \<and>
         store (snd (createYoutubeSummary sv req w)) = store w \<and>
         fst (createYoutubeSummary sv req w) =
           (case getVideoSnippetById sv v of Inl e \<Rightarrow> Inl e | Inr snippet \<Rightarrow> Inl InvalidVideoUrl)"
  using assms
  by (auto simp: new_calls_def createYoutubeSummary_def Let_def trace_log store_log
      split: sum.splits)

text \<open>
  A YouTube address without a video identifier, on the test services.
\<close>

theorem snippet_fetched_before_validation_witness:
  "new_calls test_services (test_request ''https://www.youtube.com/'') test_world =
     [GetVideoSnippetById None] \<and>
   fst (createYoutubeSummary test_services (test_request ''https://www.youtube.com/'') test_world) =
     Inl InvalidVideoUrl"
proof -
  have h1: "YoutubeSummarySchema_parse test_services (body (test_request ''https://www.youtube.com/''))
              = Inr ''https://www.youtube.com/''" by code_simp
  have h2: "extractVideoId test_services ''https://www.youtube.com/'' = None" by code_simp
  have h3: "getVideoSnippetById test_services None = Inr ''snippet of undefined''" by code_simp
  from snippet_fetched_before_validation[OF h1 h2, of test_world] h3 show ?thesis by simp
qed

text \<open>
  C2, as the code has it. For a non-empty video identifier with a stored record and a
  request without the privileged refresh, provided the metadata call of line 58
  resolves: the request returns the stored record, leaves the store, the limiter and
  the identifier supply as they are, and issues the metadata call and the lookup only,
  so no transcript, splitting, rate limiting, summarization or upsert call. A second
  such request, even against services that answer differently, returns the same
  record.
\<close>

theorem cache_hit_returns_record:
  assumes "YoutubeSummarySchema_parse sv (body req) = Inr url"
    and "extractVideoId sv url = Some vid"
    and "getVideoSnippetById sv (Some vid) = Inr snippet"
    and "YoutubeSummarySchema_parse sv' (body req) = Inr url'"
    and "extractVideoId sv' url' = Some vid"
    and "getVideoSnippetById sv' (Some vid) = Inr snippet'"
    and "vid \<noteq> []"
    and "findUnique (store w) youtube_summary vid = Some r"
    and "\<not> refresh req"
  shows "createYoutubeSummary sv req w =
           (Inr r, w\<lparr>trace := trace w @ [GetVideoSnippetById (Some vid), FindUnique vid]\<rparr>) \<and>
         createYoutubeSummary sv' req (snd (createYoutubeSummary sv req w)) =
           (Inr r, w\<lparr>trace := trace w @ [GetVideoSnippetById (Some vid), FindUnique vid,
                                          GetVideoSnippetById (Some vid), FindUnique vid]\<rparr>)"
proof -
  have one: "createYoutubeSummary s req v =
           (Inr r, v\<lparr>trace := trace v @ [GetVideoSnippetById (Some vid), FindUnique vid]\<rparr>)"
    if "YoutubeSummarySchema_parse s (body req) = Inr u" "extractVideoId s u = Some vid"
      "getVideoSnippetById s (Some vid) = Inr sn" "findUnique (store v) youtube_summary vid = Some r"
    for s :: "'a services" and v :: "'a world" and u sn
    using that assms(7,9) by (simp add: createYoutubeSummary_def Let_def log_def)
  show ?thesis
    using one[OF assms(1,2,3,8)] one[OF assms(4,5,6), of "snd (createYoutubeSummary sv req w)"] assms(8)
    by simp
qed

text \<open>
  Two requests for the stored video \<^verbatim>\<open>abc\<close>.
\<close>

theorem cache_hit_returns_record_witness:
  "createYoutubeSummary test_services (test_request ''https://youtu.be/abc'') cached_world =
     (Inr cached_row,
      cached_world\<lparr>trace := [GetVideoSnippetById (Some ''abc''), FindUnique ''abc'']\<rparr>) \<and>
   fst (createYoutubeSummary test_services (test_request ''https://youtu.be/abc'')
     (snd (createYoutubeSummary test_services (test_request ''https://youtu.be/abc'') cached_world))) =
     Inr cached_row"
proof -
  let ?req = "test_request ''https://youtu.be/abc''"
  have h1: "YoutubeSummarySchema_parse test_services (body ?req) = Inr ''https://youtu.be/abc''"
    by code_simp
  have h2: "extractVideoId test_services ''https://youtu.be/abc'' = Some ''abc''" by code_simp
  have h3: "getVideoSnippetById test_services (Some ''abc'') = Inr ''snippet of abc''" by code_simp
  have h4: "''abc'' \<noteq> []" by simp
  have h5: "findUnique (store cached_world) youtube_summary ''abc'' = Some cached_row" by code_simp
  have h6: "\<not> refresh ?req" by code_simp
  have t: "trace cached_world = []" by code_simp
  note run = cache_hit_returns_record[OF h1 h2 h3 h1 h2 h3 h4 h5 h6]
  have first: "createYoutubeSummary test_services ?req cached_world =
     (Inr cached_row,
      cached_world\<lparr>trace := [GetVideoSnippetById (Some ''abc''), FindUnique ''abc'']\<rparr>)"
    using run[THEN conjunct1] t by simp
  have second: "fst (createYoutubeSummary test_services ?req
      (snd (createYoutubeSummary test_services ?req cached_world))) = Inr cached_row"
    by (subst run[THEN conjunct2]) simp
  from first second show ?thesis by blast
qed

text \<open>
  The record of \<^verbatim>\<open>abc\<close> is stored and the request asks for no refresh, yet the request
  fails when the metadata call rejects: the stored record is not returned.
\<close>

theorem cached_record_not_returned_when_snippet_fails:
  "findUnique (store cached_world) youtube_summary ''abc'' = Some cached_row \<and>
   \<not> refresh (test_request ''https://youtu.be/abc'') \<and>
   extractVideoId snippet_down_services ''https://youtu.be/abc'' = Some ''abc'' \<and>
   fst (createYoutubeSummary snippet_down_services (test_request ''https://youtu.be/abc'')
          cached_world) = Inl (Thrown ''YoutubeApi'')"
  by code_simp

text \<open>
  C6. The handler calls the rate limiter with a duration of 60 and a limit of 2, and the
  summarization call, when it is issued, comes directly after that call and only when
  the limiter admitted the request. So when the limiter rejects the request in the
  state it is in, no summarization call is issued and the store stays as it is, and a
  request that got as far as the limiter fails with the limiter's error.
\<close>

theorem rate_limit_precedes_model_call:
  "(ModelCall m c \<in> set (new_calls sv req w) \<longrightarrow>
      fst (rateLimit sv 60 2 req (limiter w)) = None \<and>
      (\<exists>pre post. new_calls sv req w = pre @ RateLimit 60 2 # ModelCall m c # post)) \<and>
   (fst (rateLimit sv 60 2 req (limiter w)) = Some e \<longrightarrow>
      (\<forall>m c. ModelCall m c \<notin> set (new_calls sv req w)) \<and>
      store (snd (createYoutubeSummary sv req w)) = store w \<and>
      (RateLimit 60 2 \<in> set (new_calls sv req w) \<longrightarrow>
         fst (createYoutubeSummary sv req w) = Inl e))"
proof (cases rule: request_cases[of sv req w])
  case (model_failed url vid snippet ts chunks l' content e)
  then show ?thesis by (auto intro: adjacent_calls)
next
  case (parse_failed url vid snippet ts chunks l' content result e)
  then show ?thesis by (auto intro: adjacent_calls)
next
  case (upsert_failed url vid snippet ts chunks l' content result "data" i payload e)
  then show ?thesis by (auto intro: adjacent_calls)
next
  case (written url vid snippet ts chunks l' content result "data" i payload rows)
  then show ?thesis by (auto intro: adjacent_calls)
qed auto

text \<open>
  The third request for a new video from one caller within the window, on the limiter
  modelled from the spec: two calls of the caller are on record, the limiter is asked
  and rejects, the request fails, and no summarization call is issued.
\<close>

theorem rate_limit_precedes_model_call_witness:
  "fst (rateLimit test_services 60 2 (test_request ''https://youtu.be/ghi'')
          (limiter two_posts_world)) = Some (Thrown ''rate limit exceeded'') \<and>
   length (filter (\<lambda>h. fst h = client (test_request ''https://youtu.be/ghi''))
     (hits (limiter two_posts_world))) = 2 \<and>
   RateLimit 60 2 \<in> set (new_calls test_services (test_request ''https://youtu.be/ghi'')
                           two_posts_world) \<and>
   (\<forall>m c. ModelCall m c \<notin> set (new_calls test_services (test_request ''https://youtu.be/ghi'')
                                   two_posts_world)) \<and>
   fst (createYoutubeSummary test_services (test_request ''https://youtu.be/ghi'')
          two_posts_world) = Inl (Thrown ''rate limit exceeded'')"
proof -
  let ?req = "test_request ''https://youtu.be/ghi''"
  have h1: "fst (rateLimit test_services 60 2 ?req (limiter two_posts_world)) =
              Some (Thrown ''rate limit exceeded'')" by code_simp
  have h2: "RateLimit 60 2 \<in> set (new_calls test_services ?req two_posts_world)" by code_simp
  have h3: "length (filter (\<lambda>h. fst h = client ?req) (hits (limiter two_posts_world))) = 2"
    by code_simp
  from rate_limit_precedes_model_call[of _ _ test_services ?req two_posts_world
      "Thrown ''rate limit exceeded''"] h1 h2 h3
  show ?thesis by blast
qed

text \<open>
  C7. A request that fails leaves the store as it was. In particular, when the
  summarization call was issued and resolved, and the tool-call arguments of its answer
  do not parse, the request fails with that parse error, no upsert is issued and the
  store is as it was.
\<close>

theorem failure_leaves_store_unchanged:
  "(fst (createYoutubeSummary sv req w) = Inl e \<longrightarrow>
      store (snd (createYoutubeSummary sv req w)) = store w) \<and>
   (ModelCall m c \<in> set (new_calls sv req w) \<and> model_call sv m c = Inr result \<and>
    zodParseJSON sv (arguments result) = Inl e' \<longrightarrow>
      fst (createYoutubeSummary sv req w) = Inl e' \<and>
      store (snd (createYoutubeSummary sv req w)) = store w \<and>
      (\<forall>p. Upsert p \<notin> set (new_calls sv req w)))"
  by (cases rule: request_cases[of sv req w]) auto

text \<open>
  A model answer without tool-call arguments, on an empty store.
\<close>

theorem failure_leaves_store_unchanged_witness:
  "ModelCall ''gpt-4-turbo''
     (''Youtube video transcript: [0s] Intro more'' @ [CHR 0x0A] @ ''[5s] Next part'')
     \<in> set (new_calls malformed_answer_services (test_request ''https://youtu.be/abc'') test_world) \<and>
   fst (createYoutubeSummary malformed_answer_services (test_request ''https://youtu.be/abc'')
          test_world) = Inl (Thrown ''ZodError'') \<and>
   store (snd (createYoutubeSummary malformed_answer_services (test_request ''https://youtu.be/abc'')
          test_world)) = []"
proof -
  let ?req = "test_request ''https://youtu.be/abc''"
  let ?c = "''Youtube video transcript: [0s] Intro more'' @ [CHR 0x0A] @ ''[5s] Next part''"
  have h1: "ModelCall ''gpt-4-turbo'' ?c \<in> set (new_calls malformed_answer_services ?req test_world)"
    by code_simp
  have h2: "model_call malformed_answer_services ''gpt-4-turbo'' ?c =
              Inr \<lparr>arguments = None, completion_usage = None\<rparr>" by code_simp
  have h3: "zodParseJSON malformed_answer_services
              (arguments \<lparr>arguments = None, completion_usage = None\<rparr>) = Inl (Thrown ''ZodError'')"
    by code_simp
  have h4: "store test_world = []" by code_simp
  from failure_leaves_store_unchanged[of malformed_answer_services ?req test_world _
      "''gpt-4-turbo''" ?c "\<lparr>arguments = None, completion_usage = None\<rparr>" "Thrown ''ZodError''"]
    h1 h2 h3 h4
  show ?thesis by simp
qed






end
